theory Spec2Isabelle
  imports Main
begin

section \<open>JavaScript values held by the usage record\<close>

text \<open>
  The usage record of \<^verbatim>\<open>src/generate-commit.js\<close> is a JavaScript object with the
  properties \<^verbatim>\<open>requests\<close>, \<^verbatim>\<open>tokens\<close> and \<^verbatim>\<open>timestamp\<close>. The values these
  properties take in a run that starts from a file the program wrote itself are numbers,
  \<^verbatim>\<open>NaN\<close> (a number added to \<^verbatim>\<open>undefined\<close>) and \<^verbatim>\<open>null\<close> (what \<^verbatim>\<open>JSON.stringify\<close>
  writes for \<^verbatim>\<open>NaN\<close>); reading a property that is absent gives \<^verbatim>\<open>undefined\<close>.

  A number is modelled by the mathematical integer it equals. JavaScript numbers are
  IEEE doubles: the model is exact for integers up to \<open>2^53\<close> in magnitude, which covers
  every request counter and every millisecond timestamp \<^verbatim>\<open>Date.now()\<close> can return.
  Strings, booleans, arrays, nested objects and fractional numbers are outside the model.
\<close>

datatype jsval = Undefined | Null | NaN | Num int

text \<open>
  An object is the list of its own properties in insertion order, which is the order
  \<^verbatim>\<open>JSON.stringify\<close> writes them in.
\<close>

type_synonym jsobj = "(string \<times> jsval) list"

text \<open>\<^verbatim>\<open>o.k\<close>: the property's value, \<^verbatim>\<open>undefined\<close> when the object has no such property.\<close>

fun js_get :: "jsobj \<Rightarrow> string \<Rightarrow> jsval" where
  "js_get [] k = Undefined"
| "js_get ((k', v) # ps) k = (if k' = k then v else js_get ps k)"

text \<open>
  \<^verbatim>\<open>o.k = v\<close>: an existing property keeps its place, a new one goes last.
\<close>

fun js_set :: "jsobj \<Rightarrow> string \<Rightarrow> jsval \<Rightarrow> jsobj" where
  "js_set [] k v = [(k, v)]"
| "js_set ((k', v') # ps) k v =
     (if k' = k then (k, v) # ps else (k', v') # js_set ps k v)"

text \<open>
  \<^verbatim>\<open>ToNumber\<close>: \<^verbatim>\<open>undefined\<close> becomes \<^verbatim>\<open>NaN\<close> (here \<open>None\<close>), \<^verbatim>\<open>null\<close> becomes 0.
\<close>

fun to_number :: "jsval \<Rightarrow> int option" where
  "to_number Undefined = None"
| "to_number Null = Some 0"
| "to_number NaN = None"
| "to_number (Num n) = Some n"

fun of_number :: "int option \<Rightarrow> jsval" where
  "of_number None = NaN"
| "of_number (Some n) = Num n"

text \<open>\<^verbatim>\<open>a - b\<close> and \<^verbatim>\<open>a + b\<close> on these values: \<^verbatim>\<open>NaN\<close> as soon as one operand is.\<close>

definition js_sub :: "jsval \<Rightarrow> jsval \<Rightarrow> jsval" where
  "js_sub a b =
     of_number (case (to_number a, to_number b) of
                  (Some x, Some y) \<Rightarrow> Some (x - y)
                | _ \<Rightarrow> None)"

definition js_add :: "jsval \<Rightarrow> jsval \<Rightarrow> jsval" where
  "js_add a b =
     of_number (case (to_number a, to_number b) of
                  (Some x, Some y) \<Rightarrow> Some (x + y)
                | _ \<Rightarrow> None)"

text \<open>\<^verbatim>\<open>a > b\<close> and \<^verbatim>\<open>a >= b\<close>: false as soon as one operand is \<^verbatim>\<open>NaN\<close>.\<close>

definition js_gt :: "jsval \<Rightarrow> jsval \<Rightarrow> bool" where
  "js_gt a b =
     (case (to_number a, to_number b) of
        (Some x, Some y) \<Rightarrow> y < x
      | _ \<Rightarrow> False)"

definition js_ge :: "jsval \<Rightarrow> jsval \<Rightarrow> bool" where
  "js_ge a b =
     (case (to_number a, to_number b) of
        (Some x, Some y) \<Rightarrow> y \<le> x
      | _ \<Rightarrow> False)"

section \<open>\<^verbatim>\<open>JSON.stringify(usage, null, 2)\<close>\<close>

definition LF :: char where
  "LF = CHR 0x0A"

definition DQ :: char where
  "DQ = CHR 0x22"

definition digit_char :: "nat \<Rightarrow> char" where
  "digit_char d = char_of (48 + d)"

text \<open>The decimal digits of a natural number, most significant first.\<close>

fun digits_of :: "nat \<Rightarrow> string" where
  "digits_of n =
     (if n < 10 then [digit_char n] else digits_of (n div 10) @ [digit_char (n mod 10)])"

declare digits_of.simps [simp del]

definition show_int :: "int \<Rightarrow> string" where
  "show_int i = (if i < 0 then CHR ''-'' # digits_of (nat (- i)) else digits_of (nat i))"

text \<open>
  A number prints in decimal, as JavaScript prints an integer below \<open>10^21\<close> in magnitude;
  \<^verbatim>\<open>NaN\<close> and \<^verbatim>\<open>null\<close> both print as \<^verbatim>\<open>null\<close>.
\<close>

fun value_text :: "jsval \<Rightarrow> string" where
  "value_text (Num n) = show_int n"
| "value_text NaN = ''null''"
| "value_text Null = ''null''"
| "value_text Undefined = ''null''"

text \<open>One member line at indentation 2: two spaces, the quoted key, a colon, a space, the value.\<close>

definition member_text :: "string \<Rightarrow> jsval \<Rightarrow> string" where
  "member_text k v = ''  '' @ [DQ] @ k @ [DQ] @ '': '' @ value_text v"

fun render_members :: "jsobj \<Rightarrow> string" where
  "render_members [] = []"
| "render_members [(k, v)] = member_text k v"
| "render_members ((k, v) # p # ps) =
     member_text k v @ [CHR '','', LF] @ render_members (p # ps)"

text \<open>
  A property whose value is \<^verbatim>\<open>undefined\<close> is left out; an object with no property left
  prints as \<^verbatim>\<open>{}\<close>.
\<close>

definition json_stringify :: "jsobj \<Rightarrow> string" where
  "json_stringify obj =
     (let props = filter (\<lambda>(k, v). v \<noteq> Undefined) obj
      in if props = [] then ''{}''
         else [CHR ''{'', LF] @ render_members props @ [LF, CHR ''}''])"

section \<open>\<^verbatim>\<open>JSON.parse\<close> on the texts of the model\<close>

definition is_ws :: "char \<Rightarrow> bool" where
  "is_ws c = (c = CHR '' '' \<or> c = LF \<or> c = CHR 0x0D \<or> c = CHR 0x09)"

definition skip_ws :: "string \<Rightarrow> string" where
  "skip_ws s = dropWhile is_ws s"

definition is_digit :: "char \<Rightarrow> bool" where
  "is_digit c = (48 \<le> (of_char c :: nat) \<and> (of_char c :: nat) \<le> 57)"

definition is_key_char :: "char \<Rightarrow> bool" where
  "is_key_char c =
     (let n = (of_char c :: nat)
      in (48 \<le> n \<and> n \<le> 57) \<or> (65 \<le> n \<and> n \<le> 90) \<or> n = 95 \<or> (97 \<le> n \<and> n \<le> 122))"

text \<open>The value of a digit string read left to right.\<close>

fun digits_val :: "nat \<Rightarrow> string \<Rightarrow> nat" where
  "digits_val acc [] = acc"
| "digits_val acc (c # cs) = digits_val (10 * acc + (of_char c - 48)) cs"

text \<open>
  An integer literal: an optional minus sign and digits, with no leading zero before
  another digit (a syntax error in JSON). A literal that goes on with a fraction or an
  exponent is a number the model does not hold.
\<close>

definition parse_int :: "string \<Rightarrow> (int \<times> string) option" where
  "parse_int s =
     (let neg = (s \<noteq> [] \<and> hd s = CHR ''-'');
          s1 = (if neg then tl s else s);
          ds = takeWhile is_digit s1;
          rest = dropWhile is_digit s1
      in if ds = [] then None
         else if 1 < length ds \<and> hd ds = CHR ''0'' then None
         else if rest \<noteq> [] \<and> hd rest \<in> {CHR ''.'', CHR ''e'', CHR ''E''} then None
         else Some (if neg then - int (digits_val 0 ds) else int (digits_val 0 ds), rest))"

definition parse_value :: "string \<Rightarrow> (jsval \<times> string) option" where
  "parse_value s =
     (if take 4 s = ''null'' then Some (Null, drop 4 s)
      else map_option (\<lambda>(i, r). (Num i, r)) (parse_int s))"

text \<open>
  A key of the model: a quoted identifier (letters, digits, underscore, not starting with
  a digit), so that no escape sequence and no array-index key occurs.
\<close>

definition parse_key :: "string \<Rightarrow> (string \<times> string) option" where
  "parse_key s =
     (case s of
        [] \<Rightarrow> None
      | c # r \<Rightarrow>
          if c \<noteq> DQ then None
          else (let k = takeWhile is_key_char r; r' = dropWhile is_key_char r
                in if k = [] \<or> is_digit (hd k) then None
                   else (case r' of
                           [] \<Rightarrow> None
                         | c' # r'' \<Rightarrow> if c' = DQ then Some (k, r'') else None)))"

definition parse_member :: "string \<Rightarrow> ((string \<times> jsval) \<times> string) option" where
  "parse_member s =
     (case parse_key s of
        None \<Rightarrow> None
      | Some (k, r1) \<Rightarrow>
          (case skip_ws r1 of
             [] \<Rightarrow> None
           | c # r2 \<Rightarrow>
               if c \<noteq> CHR '':'' then None
               else (case parse_value (skip_ws r2) of
                       None \<Rightarrow> None
                     | Some (v, r3) \<Rightarrow> Some ((k, v), r3))))"

lemma length_skip_ws: "length (skip_ws s) \<le> length s"
  by (simp add: skip_ws_def length_dropWhile_le)

lemma parse_int_shorter: "parse_int s = Some (i, r) \<Longrightarrow> length r \<le> length s"
proof -
  assume a: "parse_int s = Some (i, r)"
  have "r = dropWhile is_digit (if s \<noteq> [] \<and> hd s = CHR ''-'' then tl s else s)"
    using a by (auto simp: parse_int_def Let_def split: if_splits)
  moreover have "length (dropWhile is_digit (tl s)) \<le> length s"
    using length_dropWhile_le [of is_digit "tl s"] by simp
  ultimately show ?thesis
    by (auto simp: length_dropWhile_le)
qed

lemma parse_value_shorter: "parse_value s = Some (v, r) \<Longrightarrow> length r \<le> length s"
  by (auto simp: parse_value_def split: if_splits dest: parse_int_shorter)

lemma parse_key_shorter: "parse_key s = Some (k, r) \<Longrightarrow> length r < length s"
proof -
  assume a: "parse_key s = Some (k, r)"
  then obtain c t where s: "s = c # t"
    by (cases s) (auto simp: parse_key_def)
  from a s obtain c' where "dropWhile is_key_char t = c' # r"
    by (auto simp: parse_key_def Let_def split: if_splits list.splits)
  then have "Suc (length r) = length (dropWhile is_key_char t)"
    by simp
  also have "\<dots> \<le> length t"
    by (rule length_dropWhile_le)
  finally show ?thesis
    using s by simp
qed

lemma parse_member_shorter: "parse_member s = Some (kv, r) \<Longrightarrow> length r < length s"
proof -
  assume a: "parse_member s = Some (kv, r)"
  then obtain k r1 where k: "parse_key s = Some (k, r1)"
    by (auto simp: parse_member_def split: option.splits)
  from a k obtain c r2 where c: "skip_ws r1 = c # r2"
    by (auto simp: parse_member_def split: option.splits list.splits)
  from a k c obtain v where v: "parse_value (skip_ws r2) = Some (v, r)"
    by (auto simp: parse_member_def split: option.splits list.splits if_splits)
  have "length r \<le> length (skip_ws r2)"
    using v by (rule parse_value_shorter)
  also have "\<dots> \<le> length r2"
    by (rule length_skip_ws)
  also have "\<dots> < length (skip_ws r1)"
    using c by simp
  also have "\<dots> \<le> length r1"
    by (rule length_skip_ws)
  also have "\<dots> < length s"
    using k by (rule parse_key_shorter)
  finally show ?thesis .
qed

text \<open>
  The members of an object after its opening brace, up to and including the closing
  brace. A key that occurs twice keeps its first place and takes its last value.
\<close>

function parse_members :: "jsobj \<Rightarrow> string \<Rightarrow> (jsobj \<times> string) option" where
  "parse_members acc s =
     (case parse_member s of
        None \<Rightarrow> None
      | Some ((k, v), r) \<Rightarrow>
          (case skip_ws r of
             [] \<Rightarrow> None
           | c # r' \<Rightarrow>
               if c = CHR '','' then parse_members (js_set acc k v) (skip_ws r')
               else if c = CHR ''}'' then Some (js_set acc k v, r')
               else None))"
  by pat_completeness auto
termination
proof (relation "measure (\<lambda>(acc, s). length s)")
  show "wf (measure (\<lambda>(acc, s). length s))"
    by simp
next
  fix acc :: jsobj and s x2 x1 r a b c r'
  assume m: "parse_member s = Some x2" and x: "(x1, r) = x2"
    and sk: "skip_ws r = c # r'"
  have "length (skip_ws r') \<le> length r'"
    by (rule length_skip_ws)
  also have "\<dots> < length (skip_ws r)"
    using sk by simp
  also have "\<dots> \<le> length r"
    by (rule length_skip_ws)
  also have "\<dots> < length s"
    using m x by (auto dest: parse_member_shorter)
  finally show "((js_set acc a b, skip_ws r'), (acc, s)) \<in> measure (\<lambda>(acc, s). length s)"
    by simp
qed

declare parse_members.simps [simp del]

definition parse_object :: "string \<Rightarrow> jsobj option" where
  "parse_object s =
     (case skip_ws s of
        [] \<Rightarrow> None
      | c # r \<Rightarrow>
          if c \<noteq> CHR ''{'' then None
          else (case (case skip_ws r of
                        [] \<Rightarrow> None
                      | c' # r' \<Rightarrow>
                          if c' = CHR ''}'' then Some ([], r')
                          else parse_members [] (c' # r')) of
                  None \<Rightarrow> None
                | Some (obj, t) \<Rightarrow> if skip_ws t = [] then Some obj else None))"

text \<open>
  A sufficient test that a text is no JSON at all. A JSON text is one value between
  white space. It begins with one of \<^verbatim>\<open>{ [ " - 0..9 t f n\<close>; it ends with \<^verbatim>\<open>}\<close> when it
  begins with \<^verbatim>\<open>{\<close>, with \<^verbatim>\<open>]\<close> when it begins with \<^verbatim>\<open>[\<close>, with \<^verbatim>\<open>"\<close> when it
  begins with \<^verbatim>\<open>"\<close>, with \<^verbatim>\<open>e\<close> when it begins with \<^verbatim>\<open>t\<close> or \<^verbatim>\<open>f\<close> (\<^verbatim>\<open>true\<close>,
  \<^verbatim>\<open>false\<close>), with \<^verbatim>\<open>l\<close> when it begins with \<^verbatim>\<open>n\<close> (\<^verbatim>\<open>null\<close>), and with a digit
  otherwise (a number). So an empty file and a file cut off before its closing brace are
  no JSON.
\<close>

definition json_starter :: "char \<Rightarrow> bool" where
  "json_starter c = (c = DQ \<or> c \<in> set ''{[-0123456789tfn'')"

definition json_closer :: "char \<Rightarrow> char \<Rightarrow> bool" where
  "json_closer c d =
     (if c = CHR ''{'' then d = CHR ''}''
      else if c = CHR ''['' then d = CHR '']''
      else if c = DQ then d = DQ
      else if c = CHR ''t'' \<or> c = CHR ''f'' then d = CHR ''e''
      else if c = CHR ''n'' then d = CHR ''l''
      else is_digit d)"

definition not_json :: "string \<Rightarrow> bool" where
  "not_json s =
     (let t = skip_ws s; e = skip_ws (rev s)
      in \<not> (t \<noteq> [] \<and> json_starter (hd t) \<and> json_closer (hd t) (hd e)))"

datatype js_error = TypeError | SyntaxError | SystemError

text \<open>
  How a call ends: it returns a value, it throws, or it leaves the JavaScript values the
  model holds (\<open>Unmodelled\<close>: nothing is said about what the program does then).
\<close>

datatype 'a completion = Returns 'a | Throws js_error | Unmodelled

text \<open>
  \<^verbatim>\<open>JSON.parse\<close>: an object of integer and \<^verbatim>\<open>null\<close> members is returned; a text that
  is certainly no JSON throws \<^verbatim>\<open>SyntaxError\<close>; every other text (valid JSON with other
  values, or a syntax error the test above does not see) is outside the model.
\<close>

definition JSON_parse :: "string \<Rightarrow> jsobj completion" where
  "JSON_parse s =
     (case parse_object s of
        Some obj \<Rightarrow> Returns obj
      | None \<Rightarrow> if not_json s then Throws SyntaxError else Unmodelled)"

section \<open>The file system, the console and the collaborators\<close>

text \<open>
  What a run leaves behind, in order:
  \<^item> \<open>ErrorLoadingUsage\<close>: \<^verbatim>\<open>console.error("Error loading usage data", error)\<close>;
  \<^item> \<open>ErrorSavingUsage\<close>: \<^verbatim>\<open>console.error("Error saving usage data:", error)\<close>;
  \<^item> \<open>RateLimitExceeded\<close>: \<^verbatim>\<open>console.error("Rate limit exceeded: 1,500 requests per day")\<close>;
  \<^item> \<open>ConfigRejected\<close>: one of the three messages of \<^verbatim>\<open>loadAndValidateConfig\<close>;
  \<^item> \<open>NoChangesToCommit\<close>: the two lines printed when nothing is staged;
  \<^item> \<open>GenerateContent\<close>: the call \<^verbatim>\<open>model.generateContent(prompt)\<close> is made;
  \<^item> \<open>GeneratedCommitMessage\<close>: \<^verbatim>\<open>console.log("Generated commit message: \n", ...)\<close>;
  \<^item> \<open>FailedToGenerate\<close>: \<^verbatim>\<open>console.log("Failed to generate commit message.")\<close>;
  \<^item> \<open>ErrorCaught\<close>: \<^verbatim>\<open>console.error("Error:", error.message)\<close> of the last handler;
  \<^item> \<open>CommitSuccessful\<close>, \<open>CommitAborted\<close>: the two closing messages.
\<close>

datatype event =
    ErrorLoadingUsage js_error
  | ErrorSavingUsage js_error
  | RateLimitExceeded
  | ConfigRejected
  | NoChangesToCommit
  | GenerateContent
  | GeneratedCommitMessage
  | FailedToGenerate
  | ErrorCaught
  | CommitSuccessful
  | CommitAborted

text \<open>
  The state a run works on: the text of \<^verbatim>\<open>.genai-usage.json\<close> (\<open>None\<close> when the file
  does not exist), whether the file can be read and written, and the events so far. A
  write that fails leaves the file as it was.
\<close>

record world =
  usage_file :: "string option"
  readable :: bool
  writable :: bool
  trace :: "event list"

definition log :: "world \<Rightarrow> event \<Rightarrow> world" where
  "log w e = w\<lparr>trace := trace w @ [e]\<rparr>"

definition existsSync :: "world \<Rightarrow> bool" where
  "existsSync w = (usage_file w \<noteq> None)"

definition readFileAsync :: "world \<Rightarrow> string completion" where
  "readFileAsync w =
     (case usage_file w of
        None \<Rightarrow> Throws SystemError
      | Some s \<Rightarrow> if readable w then Returns s else Throws SystemError)"

definition writeFileAsync :: "world \<Rightarrow> string \<Rightarrow> world completion" where
  "writeFileAsync w s =
     (if writable w then Returns (w\<lparr>usage_file := Some s\<rparr>) else Throws SystemError)"

text \<open>
  What the outside gives one run of \<^verbatim>\<open>main\<close>: the two readings of \<^verbatim>\<open>Date.now()\<close> (in
  \<^verbatim>\<open>loadUsage\<close> and in \<^verbatim>\<open>resetUsageIfNeeded\<close>), the outcome of
  \<^verbatim>\<open>loadAndValidateConfig\<close>, the staged diff (\<open>None\<close> when \<^verbatim>\<open>git diff\<close> fails), the
  outcome of the generation call, the user's answer to the last question and whether
  \<^verbatim>\<open>git commit\<close> succeeds. The text of the commit message, its emoji and the editor
  are not modelled.
\<close>

datatype config_status = ConfigMissing | ConfigUnreadable | ConfigNoApiKey | ConfigOk

text \<open>
  \<open>GenThrows\<close>: \<^verbatim>\<open>generateContent\<close> rejects or \<^verbatim>\<open>response.text()\<close> throws;
  \<open>GenNoResponse\<close>: the result has no \<^verbatim>\<open>response\<close>; \<open>GenResponse t\<close>: it has one, and
  \<open>t\<close> is what \<^verbatim>\<open>result.response.tokens\<close> reads.
\<close>

datatype generation = GenThrows | GenNoResponse | GenResponse jsval

record inputs =
  now_load :: int
  now_reset :: int
  config :: config_status
  staged_diff :: "string option"
  generation :: generation
  confirm_commit :: bool
  commit_ok :: bool

text \<open>
  How the process ends: \<^verbatim>\<open>main\<close> runs to its end, \<^verbatim>\<open>process.exit(n)\<close> is called, an
  exception leaves \<^verbatim>\<open>main\<close> uncaught (its promise rejects and nothing after runs), or
  the run leaves the model.
\<close>

datatype status = Finished | Exited int | Uncaught js_error | OutsideModel

section \<open>The usage functions of \<^verbatim>\<open>src/generate-commit.js\<close>\<close>

definition RPD :: int where
  "RPD = 1500"

text \<open>
  \<^verbatim>\<open>loadUsage\<close> (lines 55 to 65): whatever the \<^verbatim>\<open>try\<close> block throws is logged, and the
  function then ends without a \<^verbatim>\<open>return\<close>, that is with \<^verbatim>\<open>undefined\<close> (\<open>None\<close>).
\<close>

definition loadUsage :: "world \<Rightarrow> int \<Rightarrow> (world \<times> jsobj option) completion" where
  "loadUsage w now =
     (case (if \<not> existsSync w
            then Returns [(''requests'', Num 0), (''tokens'', Num 0), (''timestamp'', Num now)]
            else (case readFileAsync w of
                    Returns data \<Rightarrow> JSON_parse data
                  | Throws e \<Rightarrow> Throws e
                  | Unmodelled \<Rightarrow> Unmodelled)) of
        Returns u \<Rightarrow> Returns (w, Some u)
      | Throws e \<Rightarrow> Returns (log w (ErrorLoadingUsage e), None)
      | Unmodelled \<Rightarrow> Unmodelled)"

text \<open>\<^verbatim>\<open>saveUsage\<close> (lines 67 to 73): a failed write is logged inside the function.\<close>

definition saveUsage :: "world \<Rightarrow> jsobj \<Rightarrow> world completion" where
  "saveUsage w usage =
     (case writeFileAsync w (json_stringify usage) of
        Returns w' \<Rightarrow> Returns w'
      | Throws e \<Rightarrow> Returns (log w (ErrorSavingUsage e))
      | Unmodelled \<Rightarrow> Unmodelled)"

definition oneDay :: int where
  "oneDay = 24 * 60 * 60 * 1000"

text \<open>
  \<^verbatim>\<open>resetUsageIfNeeded\<close> (lines 75 to 83). The argument is what \<^verbatim>\<open>loadUsage\<close> returned:
  reading \<^verbatim>\<open>usage.timestamp\<close> of \<^verbatim>\<open>undefined\<close> throws a \<^verbatim>\<open>TypeError\<close>. The source
  changes the object in place; the model returns it. \<open>now\<close> is the reading of
  \<^verbatim>\<open>Date.now()\<close> on line 76.
\<close>

definition resetUsageIfNeeded :: "world \<Rightarrow> jsobj option \<Rightarrow> int \<Rightarrow> (world \<times> jsobj) completion" where
  "resetUsageIfNeeded w usage now =
     (case usage of
        None \<Rightarrow> Throws TypeError
      | Some u \<Rightarrow>
          (let u' = (if js_gt (js_sub (Num now) (js_get u ''timestamp'')) (Num oneDay)
                     then js_set (js_set u ''requests'' (Num 0)) ''timestamp'' (Num now)
                     else u)
           in case saveUsage w u' of
                Returns w' \<Rightarrow> Returns (w', u')
              | Throws e \<Rightarrow> Throws e
              | Unmodelled \<Rightarrow> Unmodelled))"

text \<open>The admission check of \<^verbatim>\<open>main\<close> (line 115): the daily request limit.\<close>

datatype admission = Allowed | Denied

definition checkAdmission :: "jsobj \<Rightarrow> admission" where
  "checkAdmission usage =
     (if js_ge (js_get usage ''requests'') (Num RPD) then Denied else Allowed)"

text \<open>
  The two increments of \<^verbatim>\<open>main\<close> after a generation (lines 184 and 185), with
  \<open>tokens\<close> what \<^verbatim>\<open>result.response.tokens\<close> reads.
\<close>

definition recordSuccess :: "jsobj \<Rightarrow> jsval \<Rightarrow> jsobj" where
  "recordSuccess usage tokens =
     (let u1 = js_set usage ''requests'' (js_add (js_get usage ''requests'') (Num 1))
      in js_set u1 ''tokens'' (js_add (js_get u1 ''tokens'') tokens))"

text \<open>Lines 196 to 205 of \<^verbatim>\<open>main\<close>: the last question and the commit.\<close>

definition commit_step :: "world \<Rightarrow> inputs \<Rightarrow> world \<times> status" where
  "commit_step w inp =
     (if confirm_commit inp
      then (if commit_ok inp then (log w CommitSuccessful, Finished)
            else (log w ErrorCaught, Exited 1))
      else (log w CommitAborted, Finished))"

text \<open>
  Lines 120 to 213 of \<^verbatim>\<open>main\<close>, reached once the request is admitted. The call of
  \<^verbatim>\<open>saveUsage\<close> stands inside the \<^verbatim>\<open>try\<close> block: an exception leaving it would end in
  the handler of line 209, which exits with status 1.
\<close>

definition generate_step :: "world \<Rightarrow> jsobj \<Rightarrow> inputs \<Rightarrow> world \<times> status" where
  "generate_step w usage inp =
     (if config inp \<noteq> ConfigOk then (log w ConfigRejected, Exited 1)
      else (case staged_diff inp of
              None \<Rightarrow> (w, Uncaught SystemError)
            | Some d \<Rightarrow>
                if d = [] then (log w NoChangesToCommit, Exited 1)
                else (let w1 = log w GenerateContent
                      in case generation inp of
                           GenThrows \<Rightarrow> (log w1 ErrorCaught, Exited 1)
                         | GenNoResponse \<Rightarrow> (log w1 FailedToGenerate, Finished)
                         | GenResponse tokens \<Rightarrow>
                             (let w2 = log w1 GeneratedCommitMessage
                              in case saveUsage w2 (recordSuccess usage tokens) of
                                   Returns w3 \<Rightarrow> commit_step w3 inp
                                 | Throws e \<Rightarrow> (log w2 ErrorCaught, Exited 1)
                                 | Unmodelled \<Rightarrow> (w2, OutsideModel)))))"

text \<open>\<^verbatim>\<open>main\<close> (lines 111 to 214).\<close>

definition main :: "world \<Rightarrow> inputs \<Rightarrow> world \<times> status" where
  "main w inp =
     (case loadUsage w (now_load inp) of
        Unmodelled \<Rightarrow> (w, OutsideModel)
      | Throws e \<Rightarrow> (w, Uncaught e)
      | Returns (w1, usage) \<Rightarrow>
          (case resetUsageIfNeeded w1 usage (now_reset inp) of
             Unmodelled \<Rightarrow> (w1, OutsideModel)
           | Throws e \<Rightarrow> (w1, Uncaught e)
           | Returns (w2, u) \<Rightarrow>
               (case checkAdmission u of
                  Denied \<Rightarrow> (log w2 RateLimitExceeded, Exited 1)
                | Allowed \<Rightarrow> generate_step w2 u inp)))"

section \<open>Notions used in the facts and in the examples\<close>

text \<open>What may follow an integer literal: the end of the text, or a character that is no
  digit and starts no fraction or exponent.\<close>

definition ends_number :: "string \<Rightarrow> bool" where
  "ends_number t = (t = [] \<or> (\<not> is_digit (hd t) \<and> hd t \<notin> {CHR ''.'', CHR ''e'', CHR ''E''}))"

text \<open>The keys and the objects on which printing and parsing are shown to be inverse:
  identifier keys, integer values.\<close>

definition valid_key :: "string \<Rightarrow> bool" where
  "valid_key k = (k \<noteq> [] \<and> \<not> is_digit (hd k) \<and> list_all is_key_char k)"

definition int_valued :: "jsobj \<Rightarrow> bool" where
  "int_valued ps = list_all (\<lambda>(k, v). valid_key k \<and> (case v of Num n \<Rightarrow> True | _ \<Rightarrow> False)) ps"

text \<open>Setting the properties of a list one after the other, as \<open>parse_members\<close> does.\<close>

fun set_all :: "jsobj \<Rightarrow> jsobj \<Rightarrow> jsobj" where
  "set_all acc [] = acc"
| "set_all acc ((k, v) # ps) = set_all (js_set acc k v) ps"

text \<open>
  The record \<^verbatim>\<open>resetUsageIfNeeded\<close> hands back (lines 77 to 81), apart from the save.
\<close>

definition reset_record :: "jsobj \<Rightarrow> int \<Rightarrow> jsobj" where
  "reset_record u now =
     (if js_gt (js_sub (Num now) (js_get u ''timestamp'')) (Num oneDay)
      then js_set (js_set u ''requests'' (Num 0)) ''timestamp'' (Num now)
      else u)"

text \<open>
  The examples below use a usage record with three numbers, a world whose usage file
  holds what \<^verbatim>\<open>saveUsage\<close> writes for a record, a world with no usage file, and a run
  in which both readings of the clock are the same, the configuration is valid, a diff
  is staged, and the user confirms a commit that succeeds.
\<close>

abbreviation usage_record :: "int \<Rightarrow> int \<Rightarrow> int \<Rightarrow> jsobj" where
  "usage_record r t s \<equiv> [(''requests'', Num r), (''tokens'', Num t), (''timestamp'', Num s)]"

abbreviation stored :: "jsobj \<Rightarrow> world" where
  "stored u \<equiv> \<lparr>usage_file = Some (json_stringify u), readable = True, writable = True, trace = []\<rparr>"

abbreviation fresh_world :: world where
  "fresh_world \<equiv> \<lparr>usage_file = None, readable = True, writable = True, trace = []\<rparr>"

abbreviation run_at :: "int \<Rightarrow> generation \<Rightarrow> inputs" where
  "run_at now g \<equiv>
     \<lparr>now_load = now, now_reset = now, config = ConfigOk, staged_diff = Some ''diff --git'',
      generation = g, confirm_commit = True, commit_ok = True\<rparr>"

section \<open>Facts about printing and parsing\<close>

subsection \<open>Integers\<close>

lemma is_digit_digit_char: "d < 10 \<Longrightarrow> is_digit (digit_char d)"
  by (simp add: is_digit_def digit_char_def)

lemma digit_char_val: "d < 10 \<Longrightarrow> (of_char (digit_char d) :: nat) - 48 = d"
  by (simp add: digit_char_def)

lemma digits_of_digits: "c \<in> set (digits_of n) \<Longrightarrow> is_digit c"
proof (induction n arbitrary: c rule: digits_of.induct)
  case (1 n)
  show ?case
  proof (cases "n < 10")
    case True
    with "1.prems" show ?thesis
      by (simp add: digits_of.simps [of n] is_digit_digit_char)
  next
    case False
    with "1.prems" have "c \<in> set (digits_of (n div 10)) \<or> c = digit_char (n mod 10)"
      by (auto simp: digits_of.simps [of n])
    then show ?thesis
      using "1.IH" [OF False] by (auto simp: is_digit_digit_char)
  qed
qed

lemma digits_of_nonempty: "digits_of n \<noteq> []"
  by (simp add: digits_of.simps [of n])

lemma digits_val_append: "digits_val acc (xs @ ys) = digits_val (digits_val acc xs) ys"
  by (induction xs arbitrary: acc) auto

lemma digits_val_digits_of: "digits_val 0 (digits_of n) = n"
proof (induction n rule: digits_of.induct)
  case (1 n)
  show ?case
  proof (cases "n < 10")
    case True
    then show ?thesis
      by (simp add: digits_of.simps [of n] digit_char_val)
  next
    case False
    then show ?thesis
      using "1.IH" by (simp add: digits_of.simps [of n] digits_val_append digit_char_val)
  qed
qed

lemma hd_digits_of_zero: "hd (digits_of n) = CHR ''0'' \<Longrightarrow> n = 0"
proof (induction n rule: digits_of.induct)
  case (1 n)
  show ?case
  proof (cases "n < 10")
    case True
    with "1.prems" have "digit_char n = CHR ''0''"
      by (simp add: digits_of.simps [of n])
    then have "(of_char (digit_char n) :: nat) = of_char (CHR ''0'')"
      by simp
    with True show ?thesis
      by (simp add: digit_char_def)
  next
    case False
    with "1.prems" have "hd (digits_of (n div 10)) = CHR ''0''"
      by (simp add: digits_of.simps [of n] digits_of_nonempty)
    with "1.IH" False have "n div 10 = 0"
      by simp
    with False show ?thesis
      by simp
  qed
qed

lemma digit_char_zero: "digit_char 0 = CHR ''0''"
proof -
  have "(of_char (digit_char 0) :: nat) = of_char (CHR ''0'')"
    by (simp add: digit_char_def)
  then show ?thesis
    by (simp only: of_char_eq_iff)
qed

lemma digits_of_zero: "digits_of 0 = ''0''"
  by (simp add: digits_of.simps [of 0] digit_char_zero)

lemma no_leading_zero: "1 < length (digits_of n) \<Longrightarrow> hd (digits_of n) \<noteq> CHR ''0''"
  using hd_digits_of_zero [of n] digits_of_zero by auto

lemma takeWhile_digits: "ends_number t \<Longrightarrow> takeWhile is_digit (digits_of n @ t) = digits_of n"
  by (cases t) (auto simp: ends_number_def digits_of_digits)

lemma dropWhile_digits: "ends_number t \<Longrightarrow> dropWhile is_digit (digits_of n @ t) = t"
  by (cases t) (auto simp: ends_number_def digits_of_digits)

lemma hd_digits_of_digit: "is_digit (hd (digits_of n))"
  using digits_of_nonempty [of n] digits_of_digits [of "hd (digits_of n)" n] by simp

lemma hd_digits_of_not_minus: "hd (digits_of n) \<noteq> CHR ''-''"
  using hd_digits_of_digit [of n] by (auto simp: is_digit_def)

lemma parse_int_show_int:
  assumes "ends_number t"
  shows "parse_int (show_int i @ t) = Some (i, t)"
proof (cases "i < 0")
  case True
  then show ?thesis
    using assms no_leading_zero [of "nat (- i)"]
    by (auto simp: parse_int_def show_int_def Let_def takeWhile_digits dropWhile_digits
        digits_of_nonempty digits_val_digits_of ends_number_def)
next
  case False
  then show ?thesis
    using assms no_leading_zero [of "nat i"]
    by (auto simp: parse_int_def show_int_def Let_def takeWhile_digits dropWhile_digits
        digits_of_nonempty digits_val_digits_of ends_number_def hd_digits_of_not_minus hd_append)
qed

subsection \<open>Members and objects\<close>

lemma show_int_nonempty: "show_int i \<noteq> []"
  by (simp add: show_int_def digits_of_nonempty)

lemma hd_show_int: "hd (show_int i) = CHR ''-'' \<or> is_digit (hd (show_int i))"
  by (simp add: show_int_def hd_digits_of_digit)

lemma take4_show_int: "take 4 (show_int i @ t) \<noteq> ''null''"
proof
  assume a: "take 4 (show_int i @ t) = ''null''"
  obtain c cs where s: "show_int i = c # cs"
    using show_int_nonempty [of i] by (cases "show_int i") auto
  with a have "c = CHR ''n''"
    by simp
  with s hd_show_int [of i] show False
    by (auto simp: is_digit_def)
qed

lemma parse_value_show_int:
  "ends_number t \<Longrightarrow> parse_value (show_int i @ t) = Some (Num i, t)"
  using take4_show_int [of i t]
  by (simp add: parse_value_def parse_int_show_int del: take_append)

lemma not_key_char_DQ: "\<not> is_key_char DQ"
  by (simp add: is_key_char_def DQ_def)

lemma parse_key_quoted:
  "valid_key k \<Longrightarrow> parse_key (DQ # k @ DQ # t) = Some (k, t)"
  by (simp add: parse_key_def valid_key_def list_all_iff not_key_char_DQ Let_def)

lemma skip_ws_show_int: "skip_ws (show_int i @ t) = show_int i @ t"
proof -
  obtain c cs where s: "show_int i = c # cs"
    using show_int_nonempty [of i] by (cases "show_int i") auto
  with hd_show_int [of i] have "\<not> is_ws c"
    by (auto simp: is_ws_def is_digit_def LF_def)
  with s show ?thesis
    by (simp add: skip_ws_def)
qed

lemma parse_member_text:
  assumes "valid_key k" and "ends_number t"
  shows "parse_member ([DQ] @ k @ [DQ] @ '': '' @ show_int i @ t) = Some ((k, Num i), t)"
proof -
  have "parse_key (DQ # k @ DQ # '': '' @ show_int i @ t) = Some (k, '': '' @ show_int i @ t)"
    using assms(1) by (rule parse_key_quoted)
  moreover have "skip_ws ('': '' @ show_int i @ t) = CHR '':'' # CHR '' '' # show_int i @ t"
    by (simp add: skip_ws_def is_ws_def LF_def)
  moreover have "skip_ws (CHR '' '' # show_int i @ t) = show_int i @ t"
    using skip_ws_show_int [of i t] by (simp add: skip_ws_def is_ws_def)
  ultimately show ?thesis
    using assms(2) by (simp add: parse_member_def parse_value_show_int)
qed

lemma ends_number_comma: "ends_number (CHR '','' # t)" "ends_number (LF # t)"
  by (simp_all add: ends_number_def is_digit_def LF_def)

lemma skip_ws_member0: "skip_ws (member_text k v @ t) = [DQ] @ k @ [DQ] @ '': '' @ value_text v @ t"
  by (simp add: skip_ws_def is_ws_def member_text_def DQ_def LF_def)

lemma parse_members_render:
  "ps \<noteq> [] \<Longrightarrow> int_valued ps \<Longrightarrow>
   parse_members acc (skip_ws (render_members ps @ [LF, CHR ''}''] @ t)) = Some (set_all acc ps, t)"
proof (induction ps arbitrary: acc rule: render_members.induct)
  case 1
  then show ?case by simp
next
  case (2 k v)
  then obtain n where v: "v = Num n" and k: "valid_key k"
    by (auto simp: int_valued_def split: jsval.splits)
  have "parse_member ([DQ] @ k @ [DQ] @ '': '' @ show_int n @ LF # CHR ''}'' # t)
        = Some ((k, Num n), LF # CHR ''}'' # t)"
    using k ends_number_comma(2) by (rule parse_member_text)
  moreover have "skip_ws (LF # CHR ''}'' # t) = CHR ''}'' # t"
    by (simp add: skip_ws_def is_ws_def LF_def)
  ultimately show ?case
    using v by (simp add: skip_ws_member0 parse_members.simps [of acc])
next
  case (3 k v p ps)
  then obtain n where v: "v = Num n" and k: "valid_key k" and rest: "int_valued (p # ps)"
    by (auto simp: int_valued_def split: jsval.splits)
  let ?tail = "render_members (p # ps) @ [LF, CHR ''}''] @ t"
  have "parse_member ([DQ] @ k @ [DQ] @ '': '' @ show_int n @ CHR '','' # LF # ?tail)
        = Some ((k, Num n), CHR '','' # LF # ?tail)"
    using k ends_number_comma(1) by (rule parse_member_text)
  moreover have "skip_ws (CHR '','' # LF # ?tail) = CHR '','' # LF # ?tail"
    by (simp add: skip_ws_def is_ws_def LF_def)
  moreover have "skip_ws (LF # ?tail) = skip_ws ?tail"
    by (simp add: skip_ws_def is_ws_def)
  moreover have "parse_members (js_set acc k v) (skip_ws ?tail) = Some (set_all (js_set acc k v) (p # ps), t)"
    using "3.IH" [of "js_set acc k v"] rest by simp
  ultimately show ?case
    using v by (simp add: skip_ws_member0 parse_members.simps [of acc])
qed

lemma filter_int_valued: "int_valued ps \<Longrightarrow> filter (\<lambda>(k, v). v \<noteq> Undefined) ps = ps"
  by (induction ps) (auto simp: int_valued_def split: jsval.splits)

lemma js_set_fresh: "k \<notin> fst ` set acc \<Longrightarrow> js_set acc k v = acc @ [(k, v)]"
  by (induction acc k v rule: js_set.induct) auto

lemma set_all_distinct:
  "distinct (map fst ps) \<Longrightarrow> fst ` set acc \<inter> fst ` set ps = {} \<Longrightarrow> set_all acc ps = acc @ ps"
proof (induction ps arbitrary: acc)
  case Nil
  then show ?case by simp
next
  case (Cons p ps)
  obtain k v where p: "p = (k, v)"
    by (cases p)
  have fresh: "k \<notin> fst ` set acc"
    using Cons.prems(2) p by auto
  have "set_all (acc @ [(k, v)]) ps = (acc @ [(k, v)]) @ ps"
  proof (rule Cons.IH)
    show "distinct (map fst ps)"
      using Cons.prems(1) by simp
    show "fst ` set (acc @ [(k, v)]) \<inter> fst ` set ps = {}"
      using Cons.prems p by auto
  qed
  then show ?case
    using p fresh by (simp add: js_set_fresh)
qed

lemma skip_ws_render: "ps \<noteq> [] \<Longrightarrow> \<exists>t. skip_ws (render_members ps @ r) = DQ # t"
  by (cases ps rule: render_members.cases) (simp_all add: skip_ws_member0)

lemma parse_object_stringify:
  assumes "int_valued ps" and "distinct (map fst ps)"
  shows "parse_object (json_stringify ps) = Some ps"
proof (cases ps)
  case Nil
  then show ?thesis
    by (simp add: json_stringify_def parse_object_def skip_ws_def is_ws_def LF_def)
next
  case (Cons p qs)
  obtain k v where p: "p = (k, v)"
    by (cases p)
  have shape: "json_stringify ps = CHR ''{'' # LF # render_members ps @ [LF, CHR ''}'']"
    unfolding json_stringify_def Let_def filter_int_valued [OF assms(1)]
    using Cons by simp
  have starts: "\<exists>t. skip_ws (render_members ps @ [LF, CHR ''}'']) = DQ # t"
    using Cons by (intro skip_ws_render) simp
  then obtain t where t: "skip_ws (render_members ps @ [LF, CHR ''}'']) = DQ # t"
    by blast
  have members: "parse_members [] (skip_ws (render_members ps @ [LF, CHR ''}''] @ [])) = Some (set_all [] ps, [])"
    using Cons assms(1) by (intro parse_members_render) simp_all
  have "set_all [] ps = ps"
    using set_all_distinct [of ps "[]"] assms(2) by simp
  with members t have "parse_members [] (DQ # t) = Some (ps, [])"
    by simp
  moreover have "skip_ws (CHR ''{'' # LF # render_members ps @ [LF, CHR ''}'']) =
      CHR ''{'' # LF # render_members ps @ [LF, CHR ''}'']"
    by (simp add: skip_ws_def is_ws_def LF_def)
  moreover have "skip_ws (LF # render_members ps @ [LF, CHR ''}'']) = DQ # t"
    using t by (simp add: skip_ws_def is_ws_def)
  ultimately show ?thesis
    by (simp add: shape parse_object_def DQ_def skip_ws_def)
qed

lemma JSON_parse_stringify:
  "int_valued ps \<Longrightarrow> distinct (map fst ps) \<Longrightarrow> JSON_parse (json_stringify ps) = Returns ps"
  by (simp add: JSON_parse_def parse_object_stringify)

subsection \<open>The usage record on disk\<close>

lemma usage_record_int_valued:
  "int_valued [(''requests'', Num a), (''tokens'', Num b), (''timestamp'', Num c)]"
  by (simp add: int_valued_def valid_key_def is_digit_def is_key_char_def)

lemma loadUsage_file:
  "usage_file w = Some s \<Longrightarrow> readable w \<Longrightarrow> JSON_parse s = Returns u \<Longrightarrow>
   loadUsage w now = Returns (w, Some u)"
  by (simp add: loadUsage_def existsSync_def readFileAsync_def)

lemma digit_char_eq: "digit_char d = c \<longleftrightarrow> (of_char c :: nat) = (48 + d) mod 256"
  by (auto simp: digit_char_def char_of_eq_iff take_bit_eq_mod)

subsection \<open>Examples of parsing\<close>

text \<open>
  A hand-written usage file, a key that occurs twice, a number the model does not hold,
  and a file cut off in the middle of a write.
\<close>

lemmas parse_unfold =
  JSON_parse_def parse_object_def skip_ws_def not_json_def is_ws_def json_starter_def
  json_closer_def LF_def DQ_def parse_members.simps parse_member_def parse_key_def
  parse_value_def parse_int_def is_digit_def is_key_char_def Let_def

lemma JSON_parse_example:
  \<open>JSON_parse ''{ "requests": 12, "tokens":null,"timestamp" : -170}'' =
     Returns [(''requests'', Num 12), (''tokens'', Null), (''timestamp'', Num (- 170))]\<close>
  by (simp add: parse_unfold)

lemma JSON_parse_duplicate_key_example:
  \<open>JSON_parse ''{"a": 1, "b": 2, "a": 3}'' = Returns [(''a'', Num 3), (''b'', Num 2)]\<close>
  by (simp add: parse_unfold)

lemma JSON_parse_fraction_example:
  \<open>JSON_parse ''{ "requests": 12.5 }'' = Unmodelled\<close>
  by (simp add: parse_unfold)

lemma JSON_parse_truncated_example:
  \<open>JSON_parse ''{ "requests": 12, "tok'' = Throws SyntaxError\<close>
  by (simp add: parse_unfold)

section \<open>Facts about the usage functions\<close>

lemma saveUsage_returns:
  "saveUsage w u =
     Returns (if writable w then w\<lparr>usage_file := Some (json_stringify u)\<rparr>
              else log w (ErrorSavingUsage SystemError))"
  by (simp add: saveUsage_def writeFileAsync_def)

lemma js_get_set: "js_get (js_set u k v) k' = (if k' = k then v else js_get u k')"
  by (induction u k v rule: js_set.induct) auto

lemma resetUsageIfNeeded_returns:
  "resetUsageIfNeeded w (Some u) now =
     Returns (if writable w then w\<lparr>usage_file := Some (json_stringify (reset_record u now))\<rparr>
              else log w (ErrorSavingUsage SystemError), reset_record u now)"
  by (simp add: resetUsageIfNeeded_def saveUsage_returns reset_record_def Let_def)

lemma reset_record_not_expired:
  "\<not> js_gt (js_sub (Num now) (js_get (reset_record u now) ''timestamp'')) (Num oneDay)"
  by (simp add: reset_record_def js_get_set js_gt_def js_sub_def oneDay_def)

lemma reset_record_idem: "reset_record (reset_record u now) now = reset_record u now"
  using reset_record_not_expired [of now u] by (simp add: reset_record_def [of "reset_record u now"])

lemma checkAdmission_Num:
  "js_get usage ''requests'' = Num n \<Longrightarrow>
   checkAdmission usage = (if 1500 \<le> n then Denied else Allowed)"
  by (simp add: checkAdmission_def js_ge_def RPD_def)

lemma loadUsage_Some: "loadUsage w now = Returns (w1, Some u) \<Longrightarrow> w1 = w"
  by (auto simp: loadUsage_def split: if_splits completion.splits)

lemma loadUsage_None:
  "loadUsage w now = Returns (w1, None) \<Longrightarrow> \<exists>e. w1 = log w (ErrorLoadingUsage e)"
  by (auto simp: loadUsage_def split: if_splits completion.splits)

lemma loadUsage_no_throw: "loadUsage w now \<noteq> Throws e"
  by (auto simp: loadUsage_def split: if_splits completion.splits)

lemma main_loaded:
  assumes "loadUsage w (now_load inp) = Returns (w1, Some u0)"
  shows "main w inp =
    (let u = reset_record u0 (now_reset inp);
         w2 = (if writable w then w\<lparr>usage_file := Some (json_stringify u)\<rparr>
               else log w (ErrorSavingUsage SystemError))
     in case checkAdmission u of
          Denied \<Rightarrow> (log w2 RateLimitExceeded, Exited 1)
        | Allowed \<Rightarrow> generate_step w2 u inp)"
  using assms loadUsage_Some [OF assms]
  by (simp add: main_def resetUsageIfNeeded_returns Let_def)

lemma main_undefined:
  assumes "loadUsage w (now_load inp) = Returns (w1, None)"
  shows "main w inp = (w1, Uncaught TypeError)"
  using assms by (simp add: main_def resetUsageIfNeeded_def)

lemma trace_log: "trace (log w e) = trace w @ [e]"
  by (simp add: log_def)

lemma generate_step_rate_limit:
  "RateLimitExceeded \<in> set (trace (fst (generate_step w u inp))) \<longleftrightarrow>
   RateLimitExceeded \<in> set (trace w)"
  by (simp add: generate_step_def commit_step_def saveUsage_returns trace_log Let_def
      split: option.splits generation.splits)

lemma generate_step_status: "snd (generate_step w u inp) = snd (generate_step w' u inp)"
  by (simp add: generate_step_def commit_step_def saveUsage_returns Let_def
      split: option.splits generation.splits)

lemma loadUsage_writable:
  "loadUsage (w\<lparr>writable := b\<rparr>) now =
     (case loadUsage w now of
        Returns (w', u) \<Rightarrow> Returns (w'\<lparr>writable := b\<rparr>, u)
      | Throws e \<Rightarrow> Throws e
      | Unmodelled \<Rightarrow> Unmodelled)"
  by (simp add: loadUsage_def existsSync_def readFileAsync_def log_def
      split: option.splits completion.splits)

lemma main_status_writable: "snd (main (w\<lparr>writable := b\<rparr>) inp) = snd (main w inp)"
proof (cases "loadUsage w (now_load inp)")
  case (Returns p)
  obtain w1 usage where p: "p = (w1, usage)"
    by (cases p)
  show ?thesis
  proof (cases usage)
    case None
    with Returns p show ?thesis
      by (simp add: main_def loadUsage_writable resetUsageIfNeeded_def)
  next
    case (Some u0)
    with Returns p show ?thesis
      using generate_step_status
      by (simp add: main_def loadUsage_writable resetUsageIfNeeded_returns split: admission.splits)
  qed
next
  case (Throws e)
  then show ?thesis
    by (simp add: main_def loadUsage_writable)
next
  case Unmodelled
  then show ?thesis
    by (simp add: main_def loadUsage_writable)
qed

lemma main_denied:
  assumes "loadUsage w (now_load inp) = Returns (w1, Some usage)"
    and "js_get usage ''requests'' = Num n" and "1500 \<le> n"
    and "js_get usage ''timestamp'' = Num ts" and "now_reset inp - ts \<le> 86400000"
  shows "main w inp =
           (log (if writable w then w\<lparr>usage_file := Some (json_stringify usage)\<rparr>
                 else log w (ErrorSavingUsage SystemError)) RateLimitExceeded, Exited 1)"
proof -
  have same: "reset_record usage (now_reset inp) = usage"
    using assms(4,5) by (simp add: reset_record_def js_gt_def js_sub_def oneDay_def)
  have denied: "checkAdmission usage = Denied"
    using assms(2,3) checkAdmission_Num [of usage n] by simp
  show ?thesis
    using same denied main_loaded [OF assms(1)] by (simp add: Let_def)
qed

lemma JSON_parse_usage_record:
  "JSON_parse (json_stringify [(''requests'', Num a), (''tokens'', Num b), (''timestamp'', Num c)]) =
     Returns [(''requests'', Num a), (''tokens'', Num b), (''timestamp'', Num c)]"
  by (rule JSON_parse_stringify) (simp_all add: usage_record_int_valued)

lemma loadUsage_stored:
  "readable w \<Longrightarrow>
   usage_file w = Some (json_stringify [(''requests'', Num a), (''tokens'', Num b), (''timestamp'', Num c)]) \<Longrightarrow>
   loadUsage w now = Returns (w, Some [(''requests'', Num a), (''tokens'', Num b), (''timestamp'', Num c)])"
  by (simp add: loadUsage_def existsSync_def readFileAsync_def JSON_parse_usage_record)

text \<open>
  With a numeric token count in the response, the two increments add 1 to \<^verbatim>\<open>requests\<close>
  and the count to \<^verbatim>\<open>tokens\<close>, and leave \<^verbatim>\<open>timestamp\<close> alone.
\<close>

lemma recordSuccess_numbers:
  assumes "js_get u ''requests'' = Num r" and "js_get u ''tokens'' = Num t"
  shows "js_get (recordSuccess u (Num k)) ''requests'' = Num (r + 1)"
    and "js_get (recordSuccess u (Num k)) ''tokens'' = Num (t + k)"
    and "js_get (recordSuccess u (Num k)) ''timestamp'' = js_get u ''timestamp''"
  using assms by (simp_all add: recordSuccess_def js_get_set js_add_def Let_def)

text \<open>
  A usage file that exists, can be read and makes \<^verbatim>\<open>JSON.parse\<close> throw: \<^verbatim>\<open>loadUsage\<close>
  logs the error and returns \<^verbatim>\<open>undefined\<close>, and \<^verbatim>\<open>main\<close> is left by the
  \<^verbatim>\<open>TypeError\<close> of \<^verbatim>\<open>resetUsageIfNeeded\<close>.
\<close>

lemma main_unparsable_usage_file:
  assumes "usage_file w = Some s" and "readable w" and "JSON_parse s = Throws SyntaxError"
  shows "loadUsage w (now_load inp) = Returns (log w (ErrorLoadingUsage SyntaxError), None) \<and>
         main w inp = (log w (ErrorLoadingUsage SyntaxError), Uncaught TypeError)"
proof -
  have l: "loadUsage w (now_load inp) = Returns (log w (ErrorLoadingUsage SyntaxError), None)"
    using assms by (simp add: loadUsage_def existsSync_def readFileAsync_def)
  then have "main w inp = (log w (ErrorLoadingUsage SyntaxError), Uncaught TypeError)"
    by (rule main_undefined)
  with l show ?thesis
    by simp
qed

section \<open>The claims\<close>

text \<open>The text \<^verbatim>\<open>saveUsage\<close> writes for a record, as \<^verbatim>\<open>JSON.stringify\<close> lays it out.\<close>

lemma json_stringify_example:
  \<open>json_stringify (usage_record 1500 250 1700000000000) =
     ''{'' @ [LF] @
     ''  "requests": 1500,'' @ [LF] @
     ''  "tokens": 250,'' @ [LF] @
     ''  "timestamp": 1700000000000'' @ [LF] @
     ''}''\<close>
  by (simp add: json_stringify_def member_text_def show_int_def digits_of.simps digit_char_eq DQ_def)

text \<open>
  C1. The admission check looks at the request counter only: with a numeric counter \<open>n\<close>
  it denies exactly when \<open>n \<ge> 1500\<close> (so 1499 is allowed), whatever the token counter
  holds. In a run whose stored record has at least 1500 requests and a window that has
  not expired, \<^verbatim>\<open>main\<close> logs the rate limit message, exits with status 1 and never
  calls the generation.
\<close>

theorem checkAdmission_daily_limit:
  "(js_get usage ''requests'' = Num n \<longrightarrow>
      checkAdmission usage = (if 1500 \<le> n then Denied else Allowed) \<and>
      checkAdmission (js_set usage ''tokens'' t) = checkAdmission usage) \<and>
   (trace w = [] \<and> loadUsage w (now_load inp) = Returns (w1, Some usage) \<and>
    js_get usage ''requests'' = Num n \<and> 1500 \<le> n \<and>
    js_get usage ''timestamp'' = Num ts \<and> now_reset inp - ts \<le> 86400000 \<longrightarrow>
      snd (main w inp) = Exited 1 \<and>
      RateLimitExceeded \<in> set (trace (fst (main w inp))) \<and>
      GenerateContent \<notin> set (trace (fst (main w inp))))"
proof (intro conjI impI)
  assume "js_get usage ''requests'' = Num n"
  then show "checkAdmission usage = (if 1500 \<le> n then Denied else Allowed)"
    by (rule checkAdmission_Num)
  show "checkAdmission (js_set usage ''tokens'' t) = checkAdmission usage"
    by (simp add: checkAdmission_def js_get_set)
next
  assume a: "trace w = [] \<and> loadUsage w (now_load inp) = Returns (w1, Some usage) \<and>
    js_get usage ''requests'' = Num n \<and> 1500 \<le> n \<and>
    js_get usage ''timestamp'' = Num ts \<and> now_reset inp - ts \<le> 86400000"
  then have m: "main w inp =
      (log (if writable w then w\<lparr>usage_file := Some (json_stringify usage)\<rparr>
            else log w (ErrorSavingUsage SystemError)) RateLimitExceeded, Exited 1)"
    by (intro main_denied [of w inp w1 usage n ts]) simp_all
  show "snd (main w inp) = Exited 1"
    by (simp add: m)
  show "RateLimitExceeded \<in> set (trace (fst (main w inp)))"
    by (simp add: m trace_log)
  show "GenerateContent \<notin> set (trace (fst (main w inp)))"
    using a by (simp add: m trace_log)
qed

theorem checkAdmission_daily_limit_witness:
  "checkAdmission (usage_record 1500 0 1699999999000) = Denied \<and>
   checkAdmission (usage_record 1499 999999 1699999999000) = Allowed \<and>
   snd (main (stored (usage_record 1500 0 1699999999000))
          (run_at 1700000000000 (GenResponse (Num 250)))) = Exited 1 \<and>
   RateLimitExceeded \<in> set (trace (fst (main (stored (usage_record 1500 0 1699999999000))
          (run_at 1700000000000 (GenResponse (Num 250)))))) \<and>
   GenerateContent \<notin> set (trace (fst (main (stored (usage_record 1500 0 1699999999000))
          (run_at 1700000000000 (GenResponse (Num 250))))))"
proof -
  let ?u = "usage_record 1500 0 1699999999000"
  let ?inp = "run_at 1700000000000 (GenResponse (Num 250))"
  have l: "loadUsage (stored ?u) (now_load ?inp) = Returns (stored ?u, Some ?u)"
    by (rule loadUsage_stored) simp_all
  show ?thesis
    using l checkAdmission_daily_limit [of ?u 1500 Null "stored ?u" ?inp "stored ?u" 1699999999000]
      checkAdmission_daily_limit [of "usage_record 1499 999999 1699999999000" 1499 Null
        "stored ?u" ?inp "stored ?u" 0]
    by simp
qed

text \<open>
  C2. For a record with a numeric timestamp \<open>ts\<close>, \<^verbatim>\<open>resetUsageIfNeeded\<close> returns, and
  the record it hands back has \<^verbatim>\<open>requests\<close> 0 and \<^verbatim>\<open>timestamp\<close> \<open>now\<close> when
  \<open>now - ts > 86400000\<close>, and is the record it was given when \<open>now - ts \<le> 86400000\<close>.
\<close>

theorem resetUsageIfNeeded_window:
  assumes "js_get u ''timestamp'' = Num ts"
  shows "\<exists>w' u'. resetUsageIfNeeded w (Some u) now = Returns (w', u') \<and>
           (if 86400000 < now - ts
            then js_get u' ''requests'' = Num 0 \<and> js_get u' ''timestamp'' = Num now
            else u' = u)"
  using assms
  by (simp add: resetUsageIfNeeded_returns reset_record_def js_gt_def js_sub_def oneDay_def js_get_set)

theorem resetUsageIfNeeded_window_witness:
  "(\<exists>w' u'. resetUsageIfNeeded fresh_world (Some (usage_record 1500 777 1699910000000)) 1700000000000
              = Returns (w', u') \<and>
            js_get u' ''requests'' = Num 0 \<and> js_get u' ''timestamp'' = Num 1700000000000) \<and>
   (\<exists>w'. resetUsageIfNeeded fresh_world (Some (usage_record 1500 777 1699913600000)) 1700000000000
              = Returns (w', usage_record 1500 777 1699913600000))"
  using resetUsageIfNeeded_window [of "usage_record 1500 777 1699910000000" 1699910000000
      fresh_world 1700000000000]
    resetUsageIfNeeded_window [of "usage_record 1500 777 1699913600000" 1699913600000
      fresh_world 1700000000000]
  by simp

text \<open>
  C3. The claim fails on the code when the response carries no token count:
  \<^verbatim>\<open>usage.tokens += undefined\<close> makes the token counter \<^verbatim>\<open>NaN\<close> instead of leaving it as
  it was, and the file then holds \<^verbatim>\<open>"tokens": null\<close>. Evaluated on a fresh record and on
  a first run in a directory with no usage file.
\<close>

theorem recordSuccess_undefined_tokens:
  "recordSuccess (usage_record 0 0 1700000000000) Undefined =
     [(''requests'', Num 1), (''tokens'', NaN), (''timestamp'', Num 1700000000000)] \<and>
   main fresh_world (run_at 1700000000000 (GenResponse Undefined)) =
     (\<lparr>usage_file =
         Some (json_stringify [(''requests'', Num 1), (''tokens'', Null), (''timestamp'', Num 1700000000000)]),
       readable = True, writable = True,
       trace = [GenerateContent, GeneratedCommitMessage, CommitSuccessful]\<rparr>,
      Finished)"
proof -
  have l: "loadUsage fresh_world 1700000000000 = Returns (fresh_world, Some (usage_record 0 0 1700000000000))"
    by (simp add: loadUsage_def existsSync_def)
  have r: "recordSuccess (usage_record 0 0 1700000000000) Undefined =
     [(''requests'', Num 1), (''tokens'', NaN), (''timestamp'', Num 1700000000000)]"
    by (simp add: recordSuccess_def js_add_def Let_def)
  have t: "json_stringify [(''requests'', Num 1), (''tokens'', NaN), (''timestamp'', Num 1700000000000)] =
      json_stringify [(''requests'', Num 1), (''tokens'', Null), (''timestamp'', Num 1700000000000)]"
    by (simp add: json_stringify_def member_text_def)
  have "main fresh_world (run_at 1700000000000 (GenResponse Undefined)) =
     (\<lparr>usage_file =
         Some (json_stringify [(''requests'', Num 1), (''tokens'', NaN), (''timestamp'', Num 1700000000000)]),
       readable = True, writable = True,
       trace = [GenerateContent, GeneratedCommitMessage, CommitSuccessful]\<rparr>,
      Finished)"
    using l r
    by (simp add: main_def resetUsageIfNeeded_returns reset_record_def js_gt_def js_sub_def oneDay_def
        checkAdmission_def js_ge_def RPD_def generate_step_def commit_step_def saveUsage_returns
        log_def Let_def)
  with r t show ?thesis
    by simp
qed

text \<open>
  C4. The claim fails on the code: \<^verbatim>\<open>loadUsage\<close> does not fail on a usage file that
  cannot be parsed. Its handler logs the error and the function ends without a value,
  where the loaders of the configuration log and call \<^verbatim>\<open>process.exit(1)\<close>; \<^verbatim>\<open>main\<close>
  then reads \<^verbatim>\<open>usage.timestamp\<close> of \<^verbatim>\<open>undefined\<close> and is left by an uncaught
  \<^verbatim>\<open>TypeError\<close>. Evaluated on an empty usage file, and on the file \<^verbatim>\<open>saveUsage\<close> writes
  for a record, cut off before its closing brace.
\<close>

theorem loadUsage_corrupt_returns_undefined:
  "JSON_parse '''' = Throws SyntaxError \<and>
   loadUsage \<lparr>usage_file = Some '''', readable = True, writable = True, trace = []\<rparr> 1700000000000 =
     Returns (\<lparr>usage_file = Some '''', readable = True, writable = True,
               trace = [ErrorLoadingUsage SyntaxError]\<rparr>, None) \<and>
   main \<lparr>usage_file = Some '''', readable = True, writable = True, trace = []\<rparr>
        (run_at 1700000000000 (GenResponse (Num 250))) =
     (\<lparr>usage_file = Some '''', readable = True, writable = True,
        trace = [ErrorLoadingUsage SyntaxError]\<rparr>, Uncaught TypeError) \<and>
   JSON_parse (butlast (json_stringify (usage_record 1 250 1700000000000))) = Throws SyntaxError \<and>
   loadUsage \<lparr>usage_file = Some (butlast (json_stringify (usage_record 1 250 1700000000000))),
              readable = True, writable = True, trace = []\<rparr> 1700000000000 =
     Returns (\<lparr>usage_file = Some (butlast (json_stringify (usage_record 1 250 1700000000000))),
               readable = True, writable = True,
               trace = [ErrorLoadingUsage SyntaxError]\<rparr>, None) \<and>
   main \<lparr>usage_file = Some (butlast (json_stringify (usage_record 1 250 1700000000000))),
         readable = True, writable = True, trace = []\<rparr>
        (run_at 1700000000000 (GenResponse (Num 250))) =
     (\<lparr>usage_file = Some (butlast (json_stringify (usage_record 1 250 1700000000000))),
        readable = True, writable = True,
        trace = [ErrorLoadingUsage SyntaxError]\<rparr>, Uncaught TypeError)"
proof -
  let ?cut = "butlast (json_stringify (usage_record 1 250 1700000000000))"
  let ?inp = "run_at 1700000000000 (GenResponse (Num 250))"
  have e: "JSON_parse '''' = Throws SyntaxError"
    by (simp add: JSON_parse_def parse_object_def skip_ws_def not_json_def)
  have c: "JSON_parse ?cut = Throws SyntaxError"
    by (simp add: json_stringify_def member_text_def show_int_def digits_of.simps digit_char_eq
        parse_unfold)
  have "loadUsage \<lparr>usage_file = Some s, readable = True, writable = True, trace = []\<rparr> (now_load ?inp) =
          Returns (\<lparr>usage_file = Some s, readable = True, writable = True,
                    trace = [ErrorLoadingUsage SyntaxError]\<rparr>, None) \<and>
        main \<lparr>usage_file = Some s, readable = True, writable = True, trace = []\<rparr> ?inp =
          (\<lparr>usage_file = Some s, readable = True, writable = True,
             trace = [ErrorLoadingUsage SyntaxError]\<rparr>, Uncaught TypeError)"
    if "JSON_parse s = Throws SyntaxError" for s
    using that
      main_unparsable_usage_file
        [of "\<lparr>usage_file = Some s, readable = True, writable = True, trace = []\<rparr>" s ?inp]
    by (simp add: log_def)
  from this [OF e] this [OF c] e c show ?thesis
    by simp
qed

text \<open>
  C5. \<^verbatim>\<open>resetUsageIfNeeded\<close> always returns on a record, and a second call with the same
  \<open>now\<close> on the record and the world it handed back returns the same record and leaves
  the usage file as the first call left it.
\<close>

theorem resetUsageIfNeeded_idempotent:
  "\<exists>w1 w2 r. resetUsageIfNeeded w (Some u) now = Returns (w1, r) \<and>
              resetUsageIfNeeded w1 (Some r) now = Returns (w2, r) \<and>
              usage_file w2 = usage_file w1"
  by (simp add: resetUsageIfNeeded_returns reset_record_idem log_def)

text \<open>
  C6. The check sees the record \<^verbatim>\<open>resetUsageIfNeeded\<close> handed back: whenever a run
  that starts with no event logs the rate limit message, \<^verbatim>\<open>loadUsage\<close> and
  \<^verbatim>\<open>resetUsageIfNeeded\<close> both returned, the check denied the record handed back, and that
  record is not expired at the reading of the clock the reset used. And when the loaded
  record has a numeric timestamp more than 86400000 ms before that reading, the record
  handed back has \<^verbatim>\<open>requests\<close> 0, the check allows it, the run goes on with the
  generation step and never logs the rate limit message, whatever the counter was.
\<close>

theorem admission_checked_after_reset:
  "(trace w = [] \<and> RateLimitExceeded \<in> set (trace (fst (main w inp))) \<longrightarrow>
      (\<exists>w1 usage w2 u.
         loadUsage w (now_load inp) = Returns (w1, usage) \<and>
         resetUsageIfNeeded w1 usage (now_reset inp) = Returns (w2, u) \<and>
         checkAdmission u = Denied \<and>
         \<not> js_gt (js_sub (Num (now_reset inp)) (js_get u ''timestamp'')) (Num oneDay))) \<and>
   (trace w = [] \<and> loadUsage w (now_load inp) = Returns (w1, Some u0) \<and>
    js_get u0 ''timestamp'' = Num ts \<and> 86400000 < now_reset inp - ts \<longrightarrow>
      (\<exists>w2 u. resetUsageIfNeeded w1 (Some u0) (now_reset inp) = Returns (w2, u) \<and>
              js_get u ''requests'' = Num 0 \<and>
              checkAdmission u = Allowed \<and>
              main w inp = generate_step w2 u inp) \<and>
      RateLimitExceeded \<notin> set (trace (fst (main w inp))))"
proof (intro conjI impI)
  assume a: "trace w = [] \<and> RateLimitExceeded \<in> set (trace (fst (main w inp)))"
  show "\<exists>w1 usage w2 u.
         loadUsage w (now_load inp) = Returns (w1, usage) \<and>
         resetUsageIfNeeded w1 usage (now_reset inp) = Returns (w2, u) \<and>
         checkAdmission u = Denied \<and>
         \<not> js_gt (js_sub (Num (now_reset inp)) (js_get u ''timestamp'')) (Num oneDay)"
  proof (cases "loadUsage w (now_load inp)")
    case (Returns p)
    obtain w1 usage where p: "p = (w1, usage)"
      by (cases p)
    show ?thesis
    proof (cases usage)
      case None
      with Returns p obtain e where "w1 = log w (ErrorLoadingUsage e)"
        using loadUsage_None by blast
      with Returns p None a show ?thesis
        by (auto simp: main_undefined trace_log)
    next
      case (Some u0)
      have w1: "w1 = w"
        using Returns p Some loadUsage_Some by blast
      let ?u = "reset_record u0 (now_reset inp)"
      have "checkAdmission ?u = Denied"
      proof (rule ccontr)
        assume "checkAdmission ?u \<noteq> Denied"
        then have "checkAdmission ?u = Allowed"
          by (cases "checkAdmission ?u") simp_all
        with Returns p Some a show False
          using main_loaded [of w inp w1 u0]
          by (auto simp: Let_def generate_step_rate_limit trace_log split: if_splits)
      qed
      with Returns p Some w1 show ?thesis
        by (simp add: resetUsageIfNeeded_returns reset_record_not_expired)
    qed
  next
    case (Throws e)
    then show ?thesis
      using loadUsage_no_throw by blast
  next
    case Unmodelled
    with a show ?thesis
      by (auto simp: main_def)
  qed
next
  assume a: "trace w = [] \<and> loadUsage w (now_load inp) = Returns (w1, Some u0) \<and>
    js_get u0 ''timestamp'' = Num ts \<and> 86400000 < now_reset inp - ts"
  have w1: "w1 = w"
    using a loadUsage_Some by blast
  let ?u = "reset_record u0 (now_reset inp)"
  have u: "?u = js_set (js_set u0 ''requests'' (Num 0)) ''timestamp'' (Num (now_reset inp))"
    using a by (simp add: reset_record_def js_gt_def js_sub_def oneDay_def)
  have r0: "js_get ?u ''requests'' = Num 0"
    by (simp add: u js_get_set)
  then have allowed: "checkAdmission ?u = Allowed"
    using checkAdmission_Num [of ?u 0] by simp
  let ?w2 = "if writable w then w\<lparr>usage_file := Some (json_stringify ?u)\<rparr>
             else log w (ErrorSavingUsage SystemError)"
  have m: "main w inp = generate_step ?w2 ?u inp"
    using a allowed main_loaded [of w inp w1 u0] by (simp add: Let_def)
  show "\<exists>w2 u. resetUsageIfNeeded w1 (Some u0) (now_reset inp) = Returns (w2, u) \<and>
              js_get u ''requests'' = Num 0 \<and>
              checkAdmission u = Allowed \<and>
              main w inp = generate_step w2 u inp"
    using r0 allowed m w1 by (simp add: resetUsageIfNeeded_returns)
  show "RateLimitExceeded \<notin> set (trace (fst (main w inp)))"
    using a by (simp add: m generate_step_rate_limit trace_log)
qed

theorem admission_checked_after_reset_witness:
  "(\<exists>w2 u. resetUsageIfNeeded (stored (usage_record 1500 0 1699910000000))
              (Some (usage_record 1500 0 1699910000000)) 1700000000000 = Returns (w2, u) \<and>
           js_get u ''requests'' = Num 0 \<and>
           checkAdmission u = Allowed \<and>
           main (stored (usage_record 1500 0 1699910000000))
                (run_at 1700000000000 (GenResponse (Num 250))) =
             generate_step w2 u (run_at 1700000000000 (GenResponse (Num 250)))) \<and>
   RateLimitExceeded \<notin> set (trace (fst (main (stored (usage_record 1500 0 1699910000000))
                (run_at 1700000000000 (GenResponse (Num 250)))))) \<and>
   GenerateContent \<in> set (trace (fst (main (stored (usage_record 1500 0 1699910000000))
                (run_at 1700000000000 (GenResponse (Num 250)))))) \<and>
   (\<exists>w1 usage w2 u.
      loadUsage (stored (usage_record 1500 0 1699999999000)) 1700000000000 = Returns (w1, usage) \<and>
      resetUsageIfNeeded w1 usage 1700000000000 = Returns (w2, u) \<and>
      checkAdmission u = Denied \<and>
      \<not> js_gt (js_sub (Num 1700000000000) (js_get u ''timestamp'')) (Num oneDay))"
proof -
  let ?old = "usage_record 1500 0 1699910000000"
  let ?full = "usage_record 1500 0 1699999999000"
  let ?inp = "run_at 1700000000000 (GenResponse (Num 250))"
  have l: "loadUsage (stored ?old) (now_load ?inp) = Returns (stored ?old, Some ?old)"
    by (rule loadUsage_stored) simp_all
  have l': "loadUsage (stored ?full) (now_load ?inp) = Returns (stored ?full, Some ?full)"
    by (rule loadUsage_stored) simp_all
  have g: "GenerateContent \<in> set (trace (fst (main (stored ?old) ?inp)))"
    using main_loaded [OF l]
    by (simp add: reset_record_def js_gt_def js_sub_def oneDay_def checkAdmission_def js_ge_def
        RPD_def generate_step_def commit_step_def saveUsage_returns log_def Let_def)
  have d: "RateLimitExceeded \<in> set (trace (fst (main (stored ?full) ?inp)))"
    using main_denied [OF l', of 1500 1699999999000] by (simp add: trace_log)
  show ?thesis
    using l g d
      admission_checked_after_reset [of "stored ?old" ?inp "stored ?old" ?old 1699910000000]
      admission_checked_after_reset [of "stored ?full" ?inp "stored ?full" ?full 0]
    by simp
qed

text \<open>
  C7. On a usage file that can be written and read, \<^verbatim>\<open>saveUsage\<close> of a record with
  three integer fields followed by \<^verbatim>\<open>loadUsage\<close> returns that record, and the load
  changes nothing.
\<close>

theorem save_load_roundtrip:
  assumes "writable w" and "readable w"
  shows "\<exists>w'. saveUsage w (usage_record a b c) = Returns w' \<and>
              loadUsage w' now = Returns (w', Some (usage_record a b c))"
proof -
  let ?w = "w\<lparr>usage_file := Some (json_stringify (usage_record a b c))\<rparr>"
  have "loadUsage ?w now = Returns (?w, Some (usage_record a b c))"
    using assms(2) by (intro loadUsage_stored) simp_all
  moreover have "saveUsage w (usage_record a b c) = Returns ?w"
    using assms(1) by (simp add: saveUsage_returns)
  ultimately show ?thesis
    by simp
qed

theorem save_load_roundtrip_witness:
  "\<exists>w'. saveUsage fresh_world (usage_record 1 250 1700000000000) = Returns w' \<and>
         loadUsage w' 1700000003000 = Returns (w', Some (usage_record 1 250 1700000000000))"
  using save_load_roundtrip [of fresh_world 1 250 1700000000000 1700000003000]
  by simp

text \<open>
  C8. With no usage file, \<^verbatim>\<open>loadUsage\<close> returns the record with \<^verbatim>\<open>requests\<close> 0,
  \<^verbatim>\<open>tokens\<close> 0 and \<^verbatim>\<open>timestamp\<close> \<open>now\<close>, and the world it returns is the world it
  was given: no file is written and nothing is logged.
\<close>

theorem loadUsage_fresh:
  assumes "usage_file w = None"
  shows "loadUsage w now = Returns (w, Some (usage_record 0 0 now))"
  using assms by (simp add: loadUsage_def existsSync_def)

theorem loadUsage_fresh_witness:
  "loadUsage fresh_world 1700000000000 =
     Returns (fresh_world, Some (usage_record 0 0 1700000000000)) \<and>
   recordSuccess (usage_record 0 0 1700000000000) (Num 250) = usage_record 1 250 1700000000000"
  using loadUsage_fresh [of fresh_world 1700000000000]
  by (simp add: recordSuccess_def js_add_def Let_def)

text \<open>
  C9. The record \<^verbatim>\<open>resetUsageIfNeeded\<close> hands back has the \<^verbatim>\<open>tokens\<close> of the record it
  was given, expired or not, and so has every property other than \<^verbatim>\<open>requests\<close> and
  \<^verbatim>\<open>timestamp\<close>.
\<close>

theorem resetUsageIfNeeded_frame:
  "\<exists>w' u'. resetUsageIfNeeded w (Some u) now = Returns (w', u') \<and>
           js_get u' ''tokens'' = js_get u ''tokens'' \<and>
           (\<forall>k. k \<noteq> ''requests'' \<and> k \<noteq> ''timestamp'' \<longrightarrow> js_get u' k = js_get u k)"
  by (simp add: resetUsageIfNeeded_returns reset_record_def js_get_set)

theorem resetUsageIfNeeded_frame_witness:
  "\<exists>w' u'. resetUsageIfNeeded fresh_world (Some (usage_record 1500 777 1699910000000)) 1700000000000
             = Returns (w', u') \<and>
           js_get u' ''requests'' = Num 0 \<and>
           js_get u' ''tokens'' = Num 777"
  using resetUsageIfNeeded_frame [of fresh_world "usage_record 1500 777 1699910000000" 1700000000000]
  by (simp add: resetUsageIfNeeded_returns reset_record_def js_gt_def js_sub_def oneDay_def)

text \<open>
  C10. \<^verbatim>\<open>saveUsage\<close> always returns. When the file cannot be written it logs the error
  and returns; a generation that has succeeded then goes on to the commit step with the
  failure logged; and how a run of \<^verbatim>\<open>main\<close> ends does not depend on whether the file
  can be written.
\<close>

theorem saveUsage_failure_contained:
  "(\<exists>w'. saveUsage w u = Returns w') \<and>
   (\<not> writable w \<longrightarrow>
      saveUsage w u = Returns (log w (ErrorSavingUsage SystemError)) \<and>
      (config inp = ConfigOk \<and> staged_diff inp = Some d \<and> d \<noteq> [] \<and>
       generation inp = GenResponse t \<longrightarrow>
         generate_step w u inp =
           commit_step (log (log (log w GenerateContent) GeneratedCommitMessage)
                            (ErrorSavingUsage SystemError)) inp)) \<and>
   snd (main (w\<lparr>writable := False\<rparr>) inp) = snd (main (w\<lparr>writable := True\<rparr>) inp)"
proof (intro conjI)
  show "\<exists>w'. saveUsage w u = Returns w'"
    by (simp add: saveUsage_returns)
  show "\<not> writable w \<longrightarrow>
      saveUsage w u = Returns (log w (ErrorSavingUsage SystemError)) \<and>
      (config inp = ConfigOk \<and> staged_diff inp = Some d \<and> d \<noteq> [] \<and>
       generation inp = GenResponse t \<longrightarrow>
         generate_step w u inp =
           commit_step (log (log (log w GenerateContent) GeneratedCommitMessage)
                            (ErrorSavingUsage SystemError)) inp)"
    by (simp add: saveUsage_returns generate_step_def Let_def log_def)
  show "snd (main (w\<lparr>writable := False\<rparr>) inp) = snd (main (w\<lparr>writable := True\<rparr>) inp)"
    by (simp add: main_status_writable)
qed

theorem saveUsage_failure_contained_witness:
  "saveUsage \<lparr>usage_file = None, readable = True, writable = False, trace = []\<rparr>
       (usage_record 0 0 1700000000000) =
     Returns \<lparr>usage_file = None, readable = True, writable = False,
              trace = [ErrorSavingUsage SystemError]\<rparr> \<and>
   generate_step \<lparr>usage_file = None, readable = True, writable = False, trace = []\<rparr>
       (usage_record 0 0 1700000000000) (run_at 1700000000000 (GenResponse (Num 250))) =
     (\<lparr>usage_file = None, readable = True, writable = False,
        trace = [GenerateContent, GeneratedCommitMessage, ErrorSavingUsage SystemError,
                 CommitSuccessful]\<rparr>, Finished)"
  using saveUsage_failure_contained
    [of "\<lparr>usage_file = None, readable = True, writable = False, trace = []\<rparr>"
      "usage_record 0 0 1700000000000" "run_at 1700000000000 (GenResponse (Num 250))"
      "''diff --git''" "Num 250"]
  by (simp add: log_def commit_step_def)

end
